theory Spec2Isabelle
  imports Complex_Main "HOL-Library.Sublist" "HOL-Library.Multiset"
    "HOL-Library.Char_ord" "HOL-Library.List_Lexorder" "HOL-Library.Product_Lexorder"
begin

section \<open>The scoreboard table\<close>

text \<open>
  One row of \<^verbatim>\<open>weekly_scoreboard_csv/master_scoreboard.csv\<close>, with the columns that
  \<^verbatim>\<open>streamlit_visualizer.py\<close> reads. A table is the list of its rows, in file order.
  Scores are floats in the source; they are real numbers here, so every statement below
  about a quotient or a mean is a statement of exact arithmetic.
\<close>

record scoreboard_row =
  week :: int
  manager_nickname :: string
  matchup_id :: int
  team_points :: real
  winner_team_key :: string
  team_key :: string

type_synonym scoreboard = "scoreboard_row list"

section \<open>Filtering (lines 52 to 55)\<close>

text \<open>
  \<^verbatim>\<open>Series.isin(values)\<close> and \<^verbatim>\<open>Series.between(left, right)\<close>, row by row. The bounds
  of \<^verbatim>\<open>between\<close> are inclusive on both sides, the default of pandas.
\<close>

definition isin :: "string \<Rightarrow> string list \<Rightarrow> bool" where
  "isin x values = (x \<in> set values)"

definition between :: "int \<Rightarrow> int \<Rightarrow> int \<Rightarrow> bool" where
  "between x left right = (left \<le> x \<and> x \<le> right)"

text \<open>
  \<^verbatim>\<open>scoreboard_df[mask]\<close>: boolean indexing keeps the rows whose mask is true, in the
  order of the frame.
\<close>

definition filtered_scoreboard :: "scoreboard \<Rightarrow> string list \<Rightarrow> int \<times> int \<Rightarrow> scoreboard" where
  "filtered_scoreboard scoreboard_df selected_teams week_range =
     filter (\<lambda>r. isin (manager_nickname r) selected_teams
                  \<and> between (week r) (fst week_range) (snd week_range))
            scoreboard_df"

section \<open>Loading (lines 19 to 31 and 290 to 292)\<close>

text \<open>
  What \<^verbatim>\<open>pd.read_csv(path)\<close> does for one path: it returns a frame, raises
  \<^verbatim>\<open>FileNotFoundError\<close>, or raises something else (a parser error, a permission
  error). The string is the text of the exception.
\<close>

datatype 'a read_csv = Frame 'a | FileNotFoundError string | OtherError string

datatype st_element = st_error string | st_info string

datatype exn = Uncaught string

text \<open>
  \<^verbatim>\<open>load_data\<close>: one \<^verbatim>\<open>try\<close> around both reads, the rosters first. Only
  \<^verbatim>\<open>FileNotFoundError\<close> is caught; the handler shows an error and returns
  \<^verbatim>\<open>None, None\<close>. The result is the elements shown, and the returned pair or the
  exception that leaves the function.
\<close>

definition load_data ::
  "'r read_csv \<Rightarrow> 's read_csv \<Rightarrow> st_element list \<times> (exn + 'r option \<times> 's option)" where
  "load_data master_rosters master_scoreboard =
     (case master_rosters of
        FileNotFoundError e \<Rightarrow> ([st_error (''Could not load data files: '' @ e)], Inr (None, None))
      | OtherError e \<Rightarrow> ([], Inl (Uncaught e))
      | Frame rosters_df \<Rightarrow>
          (case master_scoreboard of
             FileNotFoundError e \<Rightarrow>
               ([st_error (''Could not load data files: '' @ e)], Inr (None, None))
           | OtherError e \<Rightarrow> ([], Inl (Uncaught e))
           | Frame scoreboard_df \<Rightarrow> ([], Inr (Some rosters_df, Some scoreboard_df))))"

text \<open>
  The script around it: the dashboard is built when both results are not \<^verbatim>\<open>None\<close>,
  otherwise the \<^verbatim>\<open>else\<close> branch of line 290 shows that no data could be loaded.
\<close>

datatype ('r, 's) page =
    Dashboard 'r 's "st_element list"
  | NoData "st_element list"
  | Crashed exn

definition no_data_elements :: "st_element list" where
  "no_data_elements =
     [st_error ''Could not load the required CSV files. Please make sure 'rosters_csv/master_rosters.csv' and 'weekly_scoreboard_csv/master_scoreboard.csv' exist.'',
      st_info ''Run the CSV conversion scripts first to generate the required files.'']"

definition script :: "'r read_csv \<Rightarrow> 's read_csv \<Rightarrow> ('r, 's) page" where
  "script master_rosters master_scoreboard =
     (case load_data master_rosters master_scoreboard of
        (shown, Inl e) \<Rightarrow> Crashed e
      | (shown, Inr (Some rosters_df, Some scoreboard_df)) \<Rightarrow> Dashboard rosters_df scoreboard_df shown
      | (shown, Inr _) \<Rightarrow> NoData (shown @ no_data_elements))"

section \<open>Cumulative win percentage (lines 84 to 94)\<close>

text \<open>
  \<^verbatim>\<open>filtered_scoreboard[filtered_scoreboard['manager_nickname'] == team].sort_values('week')\<close>.
  The sort is by ascending week; rows of equal week keep their order here.
\<close>

definition team_data :: "scoreboard \<Rightarrow> string \<Rightarrow> scoreboard" where
  "team_data fs t = sort_key week (filter (\<lambda>r. manager_nickname r = t) fs)"

text \<open>\<^verbatim>\<open>(team_data['winner_team_key'] == team_data['team_key']).astype(int)\<close>\<close>

definition wins :: "scoreboard \<Rightarrow> int list" where
  "wins td = map (\<lambda>r. if winner_team_key r = team_key r then 1 else 0) td"

text \<open>\<^verbatim>\<open>Series.cumsum()\<close>: the running sum, the current element included.\<close>

fun cumsum_from :: "int \<Rightarrow> int list \<Rightarrow> int list" where
  "cumsum_from acc [] = []"
| "cumsum_from acc (x # xs) = (acc + x) # cumsum_from (acc + x) xs"

definition cumsum :: "int list \<Rightarrow> int list" where
  "cumsum xs = cumsum_from 0 xs"

definition cumulative_wins :: "scoreboard \<Rightarrow> int list" where
  "cumulative_wins td = cumsum (wins td)"

text \<open>\<^verbatim>\<open>range(1, len(team_data) + 1)\<close>\<close>

definition games_played :: "scoreboard \<Rightarrow> int list" where
  "games_played td = map int [1 ..< length td + 1]"

text \<open>\<^verbatim>\<open>(team_data['cumulative_wins'] / team_data['games_played']) * 100\<close>\<close>

definition win_percentage :: "scoreboard \<Rightarrow> real list" where
  "win_percentage td =
     map2 (\<lambda>c g. (real_of_int c / real_of_int g) * 100) (cumulative_wins td) (games_played td)"

text \<open>
  The loop over \<^verbatim>\<open>selected_teams\<close>: one frame per team, with the columns
  \<^verbatim>\<open>week\<close>, \<^verbatim>\<open>manager_nickname\<close> and \<^verbatim>\<open>win_percentage\<close>.
\<close>

type_synonym win_row = "int \<times> string \<times> real"

definition win_frame :: "scoreboard \<Rightarrow> win_row list" where
  "win_frame td = zip (map week td) (zip (map manager_nickname td) (win_percentage td))"

fun win_data_loop :: "scoreboard \<Rightarrow> win_row list list \<Rightarrow> string list \<Rightarrow> win_row list list" where
  "win_data_loop fs win_data [] = win_data"
| "win_data_loop fs win_data (t # ts) = win_data_loop fs (win_data @ [win_frame (team_data fs t)]) ts"

definition win_data :: "scoreboard \<Rightarrow> string list \<Rightarrow> win_row list list" where
  "win_data fs selected_teams = win_data_loop fs [] selected_teams"

text \<open>\<^verbatim>\<open>if win_data: win_df = pd.concat(win_data)\<close>\<close>

definition win_df :: "scoreboard \<Rightarrow> string list \<Rightarrow> win_row list option" where
  "win_df fs selected_teams =
     (let wd = win_data fs selected_teams in if wd = [] then None else Some (concat wd))"

section \<open>Head-to-head win matrix (lines 194 to 214)\<close>

text \<open>
  \<^verbatim>\<open>matchups[(matchups['week'] == row['week']) & (matchups['matchup_id'] == row['matchup_id'])]\<close>
\<close>

definition week_matchups :: "scoreboard \<Rightarrow> scoreboard_row \<Rightarrow> scoreboard" where
  "week_matchups matchups row =
     filter (\<lambda>r. week r = week row \<and> matchup_id r = matchup_id row) matchups"

text \<open>
  The win matrix is a frame of integers whose index and columns are the selected teams:
  a cell for every pair of selected teams and no other cell. \<^verbatim>\<open>selected_teams\<close> is what
  the multiselect returns, a list without repetition.
\<close>

type_synonym matrix = "string \<times> string \<rightharpoonup> int"

datatype py_error = KeyError

definition new_win_matrix :: "string list \<Rightarrow> matrix" where
  "new_win_matrix selected_teams =
     (\<lambda>(r, c). if r \<in> set selected_teams \<and> c \<in> set selected_teams then Some 0 else None)"

text \<open>\<^verbatim>\<open>win_matrix.loc[winner, loser] += 1\<close>: reading a label that is not there raises.\<close>

definition loc_add1 :: "matrix \<Rightarrow> string \<Rightarrow> string \<Rightarrow> py_error + matrix" where
  "loc_add1 m r c = (case m (r, c) of None \<Rightarrow> Inl KeyError | Some v \<Rightarrow> Inr (m((r, c) \<mapsto> v + 1)))"

definition winner_of :: "scoreboard_row \<Rightarrow> scoreboard_row \<Rightarrow> string" where
  "winner_of team1 team2 =
     (if team_points team1 > team_points team2 then manager_nickname team1
      else manager_nickname team2)"

definition loser_of :: "scoreboard_row \<Rightarrow> scoreboard_row \<Rightarrow> string" where
  "loser_of team1 team2 =
     (if winner_of team1 team2 = manager_nickname team1 then manager_nickname team2
      else manager_nickname team1)"

text \<open>The body of the loop of line 197, for one row of \<^verbatim>\<open>matchups\<close>.\<close>

definition win_matrix_step ::
  "scoreboard \<Rightarrow> string list \<Rightarrow> matrix \<Rightarrow> scoreboard_row \<Rightarrow> py_error + matrix" where
  "win_matrix_step matchups selected_teams m row =
     (let wm = week_matchups matchups row in
      if length wm = 2 then
        (let team1 = wm ! 0; team2 = wm ! 1 in
         if manager_nickname team1 \<in> set selected_teams
            \<and> manager_nickname team2 \<in> set selected_teams
         then loc_add1 m (winner_of team1 team2) (loser_of team1 team2)
         else Inr m)
      else Inr m)"

fun win_matrix_loop ::
  "scoreboard \<Rightarrow> string list \<Rightarrow> matrix \<Rightarrow> scoreboard \<Rightarrow> py_error + matrix" where
  "win_matrix_loop matchups selected_teams m [] = Inr m"
| "win_matrix_loop matchups selected_teams m (row # rows) =
     (case win_matrix_step matchups selected_teams m row of
        Inl e \<Rightarrow> Inl e
      | Inr m' \<Rightarrow> win_matrix_loop matchups selected_teams m' rows)"

text \<open>
  \<^verbatim>\<open>matchups = filtered_scoreboard.copy()\<close>, the matrix of zeros, then the loop over
  every row of \<^verbatim>\<open>matchups\<close>.
\<close>

definition win_matrix :: "scoreboard \<Rightarrow> string list \<Rightarrow> py_error + matrix" where
  "win_matrix fs selected_teams =
     (let matchups = fs in
      win_matrix_loop matchups selected_teams (new_win_matrix selected_teams) matchups)"

text \<open>\<^verbatim>\<open>win_matrix.values\<close>: the cells row by row, in the order of the selected teams.\<close>

definition matrix_values :: "string list \<Rightarrow> py_error + matrix \<Rightarrow> int option list list" where
  "matrix_values selected_teams res =
     (case res of
        Inl e \<Rightarrow> []
      | Inr m \<Rightarrow> map (\<lambda>r. map (\<lambda>c. m (r, c)) selected_teams) selected_teams)"

section \<open>Average points in head-to-head matchups (lines 229 to 255)\<close>

record h2h_record =
  team :: string
  opponent :: string
  points :: real

definition h2h_step :: "scoreboard \<Rightarrow> string list \<Rightarrow> scoreboard_row \<Rightarrow> h2h_record list" where
  "h2h_step matchups selected_teams row =
     (let wm = week_matchups matchups row in
      if length wm = 2 then
        (let team1 = wm ! 0; team2 = wm ! 1 in
         if manager_nickname team1 \<in> set selected_teams
            \<and> manager_nickname team2 \<in> set selected_teams
         then [\<lparr>team = manager_nickname team1, opponent = manager_nickname team2,
                 points = team_points team1\<rparr>,
               \<lparr>team = manager_nickname team2, opponent = manager_nickname team1,
                 points = team_points team2\<rparr>]
         else [])
      else [])"

fun h2h_loop ::
  "scoreboard \<Rightarrow> string list \<Rightarrow> h2h_record list \<Rightarrow> scoreboard \<Rightarrow> h2h_record list" where
  "h2h_loop matchups selected_teams h2h_points [] = h2h_points"
| "h2h_loop matchups selected_teams h2h_points (row # rows) =
     h2h_loop matchups selected_teams (h2h_points @ h2h_step matchups selected_teams row) rows"

definition h2h_points :: "scoreboard \<Rightarrow> string list \<Rightarrow> h2h_record list" where
  "h2h_points matchups selected_teams = h2h_loop matchups selected_teams [] matchups"

text \<open>\<^verbatim>\<open>Series.mean()\<close> of a group, which is never empty.\<close>

definition mean :: "real list \<Rightarrow> real" where
  "mean xs = sum_list xs / real (length xs)"

text \<open>
  \<^verbatim>\<open>h2h_df.groupby(['team', 'opponent'])['points'].mean().reset_index()\<close>: one row per
  key that occurs, the keys in ascending order, with the mean of the points of the key.
\<close>

definition h2h_key :: "h2h_record \<Rightarrow> string \<times> string" where
  "h2h_key r = (team r, opponent r)"

definition groupby_mean :: "h2h_record list \<Rightarrow> ((string \<times> string) \<times> real) list" where
  "groupby_mean h2h_df =
     map (\<lambda>k. (k, mean (map points (filter (\<lambda>r. h2h_key r = k) h2h_df))))
         (sort (remdups (map h2h_key h2h_df)))"

text \<open>\<^verbatim>\<open>if h2h_points: ...\<close>: no table is built from an empty list.\<close>

definition avg_h2h :: "scoreboard \<Rightarrow> string list \<Rightarrow> ((string \<times> string) \<times> real) list option" where
  "avg_h2h matchups selected_teams =
     (let h = h2h_points matchups selected_teams in
      if h = [] then None else Some (groupby_mean h))"

section \<open>The objects the computations read and write\<close>

text \<open>
  The functions above compute the values of the derived tables. The source also assigns
  columns to a frame (lines 87 to 90) and increments cells of a frame (line 211), so which
  object a statement writes to matters. Here the frames live in a store: an address holds
  a scoreboard frame, whose rows may carry columns added later, or the win matrix; \<open>lim\<close>
  is the next free address. Boolean indexing, \<^verbatim>\<open>sort_values\<close>, \<^verbatim>\<open>copy\<close> and
  \<^verbatim>\<open>pd.DataFrame(...)\<close> return a new object; a column assignment and
  \<^verbatim>\<open>.loc[...] += 1\<close> change the object they are applied to.
\<close>

datatype cell = IntCell int | FloatCell real

type_synonym frame = "(scoreboard_row \<times> (string \<rightharpoonup> cell)) list"

datatype obj = DataFrame frame | MatrixFrame matrix

record heap =
  objs :: "nat \<Rightarrow> obj"
  lim :: nat

definition alloc :: "obj \<Rightarrow> heap \<Rightarrow> nat \<times> heap" where
  "alloc v h = (lim h, h\<lparr>objs := (objs h)(lim h := v), lim := lim h + 1\<rparr>)"

definition frame_at :: "heap \<Rightarrow> nat \<Rightarrow> frame" where
  "frame_at h a = (case objs h a of DataFrame f \<Rightarrow> f | MatrixFrame m \<Rightarrow> [])"

definition rows_at :: "heap \<Rightarrow> nat \<Rightarrow> scoreboard" where
  "rows_at h a = map fst (frame_at h a)"

definition matrix_at :: "heap \<Rightarrow> nat \<Rightarrow> matrix" where
  "matrix_at h a = (case objs h a of MatrixFrame m \<Rightarrow> m | DataFrame f \<Rightarrow> Map.empty)"

text \<open>\<^verbatim>\<open>df[mask]\<close>, \<^verbatim>\<open>df.sort_values('week')\<close> and \<^verbatim>\<open>df.copy()\<close>.\<close>

definition boolean_index :: "(scoreboard_row \<Rightarrow> bool) \<Rightarrow> nat \<Rightarrow> heap \<Rightarrow> nat \<times> heap" where
  "boolean_index keep a h = alloc (DataFrame (filter (\<lambda>x. keep (fst x)) (frame_at h a))) h"

definition sort_values_week :: "nat \<Rightarrow> heap \<Rightarrow> nat \<times> heap" where
  "sort_values_week a h = alloc (DataFrame (sort_key (\<lambda>x. week (fst x)) (frame_at h a))) h"

definition copy :: "nat \<Rightarrow> heap \<Rightarrow> nat \<times> heap" where
  "copy a h = alloc (objs h a) h"

text \<open>\<^verbatim>\<open>df[name] = vals\<close>, in place.\<close>

definition setitem :: "nat \<Rightarrow> string \<Rightarrow> cell list \<Rightarrow> heap \<Rightarrow> heap" where
  "setitem a name vals h =
     h\<lparr>objs := (objs h)(a := DataFrame (map2 (\<lambda>x v. (fst x, (snd x)(name \<mapsto> v))) (frame_at h a) vals))\<rparr>"

text \<open>Lines 52 to 55 on the object \<^verbatim>\<open>scoreboard_df\<close>.\<close>

definition run_filter :: "nat \<Rightarrow> string list \<Rightarrow> int \<times> int \<Rightarrow> heap \<Rightarrow> nat \<times> heap" where
  "run_filter scoreboard_df selected_teams week_range h =
     boolean_index (\<lambda>r. isin (manager_nickname r) selected_teams
                        \<and> between (week r) (fst week_range) (snd week_range)) scoreboard_df h"

text \<open>
  The body of the loop of line 85 on the object \<^verbatim>\<open>filtered_scoreboard\<close>: the four
  columns are assigned to the sorted frame \<^verbatim>\<open>team_data\<close>, each computed from the rows
  of that frame as it is then, and the three columns of line 91 are read from it.
\<close>

definition run_team :: "nat \<Rightarrow> string \<Rightarrow> heap \<Rightarrow> win_row list \<times> heap" where
  "run_team fs t h0 =
     (let (masked, h1) = boolean_index (\<lambda>r. manager_nickname r = t) fs h0;
          (td, h2) = sort_values_week masked h1;
          h3 = setitem td ''wins'' (map IntCell (wins (rows_at h2 td))) h2;
          h4 = setitem td ''cumulative_wins'' (map IntCell (cumulative_wins (rows_at h3 td))) h3;
          h5 = setitem td ''games_played'' (map IntCell (games_played (rows_at h4 td))) h4;
          h6 = setitem td ''win_percentage'' (map FloatCell (win_percentage (rows_at h5 td))) h5
      in (win_frame (rows_at h6 td), h6))"

fun run_win_data_loop ::
  "nat \<Rightarrow> win_row list list \<Rightarrow> string list \<Rightarrow> heap \<Rightarrow> win_row list list \<times> heap" where
  "run_win_data_loop fs frames [] h = (frames, h)"
| "run_win_data_loop fs frames (t # ts) h =
     (let (fr, h') = run_team fs t h in run_win_data_loop fs (frames @ [fr]) ts h')"

definition run_win_data :: "nat \<Rightarrow> string list \<Rightarrow> heap \<Rightarrow> win_row list list \<times> heap" where
  "run_win_data fs selected_teams h = run_win_data_loop fs [] selected_teams h"

text \<open>
  Lines 194 to 255 on the object \<^verbatim>\<open>filtered_scoreboard\<close>: \<^verbatim>\<open>matchups\<close> is a copy,
  the win matrix a new frame that the first loop increments, and every pass of either
  loop builds the frame \<^verbatim>\<open>week_matchups\<close> from \<^verbatim>\<open>matchups\<close>.
\<close>

definition run_matrix_step ::
  "nat \<Rightarrow> nat \<Rightarrow> string list \<Rightarrow> scoreboard_row \<Rightarrow> heap \<Rightarrow> py_error + heap" where
  "run_matrix_step matchups wm selected_teams row h0 =
     (let (g, h1) = boolean_index (\<lambda>r. week r = week row \<and> matchup_id r = matchup_id row) matchups h0 in
      if length (rows_at h1 g) = 2 then
        (let team1 = rows_at h1 g ! 0; team2 = rows_at h1 g ! 1 in
         if manager_nickname team1 \<in> set selected_teams
            \<and> manager_nickname team2 \<in> set selected_teams
         then (case loc_add1 (matrix_at h1 wm) (winner_of team1 team2) (loser_of team1 team2) of
                 Inl e \<Rightarrow> Inl e
               | Inr m \<Rightarrow> Inr (h1\<lparr>objs := (objs h1)(wm := MatrixFrame m)\<rparr>))
         else Inr h1)
      else Inr h1)"

fun run_matrix_loop ::
  "nat \<Rightarrow> nat \<Rightarrow> string list \<Rightarrow> scoreboard \<Rightarrow> heap \<Rightarrow> py_error + heap" where
  "run_matrix_loop matchups wm selected_teams [] h = Inr h"
| "run_matrix_loop matchups wm selected_teams (row # rows) h =
     (case run_matrix_step matchups wm selected_teams row h of
        Inl e \<Rightarrow> Inl e
      | Inr h' \<Rightarrow> run_matrix_loop matchups wm selected_teams rows h')"

definition run_h2h_step ::
  "nat \<Rightarrow> string list \<Rightarrow> scoreboard_row \<Rightarrow> heap \<Rightarrow> h2h_record list \<times> heap" where
  "run_h2h_step matchups selected_teams row h0 =
     (let (g, h1) = boolean_index (\<lambda>r. week r = week row \<and> matchup_id r = matchup_id row) matchups h0 in
      if length (rows_at h1 g) = 2 then
        (let team1 = rows_at h1 g ! 0; team2 = rows_at h1 g ! 1 in
         if manager_nickname team1 \<in> set selected_teams
            \<and> manager_nickname team2 \<in> set selected_teams
         then ([\<lparr>team = manager_nickname team1, opponent = manager_nickname team2,
                  points = team_points team1\<rparr>,
                \<lparr>team = manager_nickname team2, opponent = manager_nickname team1,
                  points = team_points team2\<rparr>], h1)
         else ([], h1))
      else ([], h1))"

fun run_h2h_loop ::
  "nat \<Rightarrow> string list \<Rightarrow> h2h_record list \<Rightarrow> scoreboard \<Rightarrow> heap \<Rightarrow> h2h_record list \<times> heap" where
  "run_h2h_loop matchups selected_teams recs [] h = (recs, h)"
| "run_h2h_loop matchups selected_teams recs (row # rows) h =
     (let (new, h') = run_h2h_step matchups selected_teams row h
      in run_h2h_loop matchups selected_teams (recs @ new) rows h')"

record head_to_head =
  win_matrix_values :: matrix
  avg_h2h_table :: "((string \<times> string) \<times> real) list option"

definition run_head_to_head :: "nat \<Rightarrow> string list \<Rightarrow> heap \<Rightarrow> py_error + head_to_head \<times> heap" where
  "run_head_to_head fs selected_teams h0 =
     (let (matchups, h1) = copy fs h0;
          (wm, h2) = alloc (MatrixFrame (new_win_matrix selected_teams)) h1
      in case run_matrix_loop matchups wm selected_teams (rows_at h2 matchups) h2 of
           Inl e \<Rightarrow> Inl e
         | Inr h3 \<Rightarrow>
             (let (recs, h4) = run_h2h_loop matchups selected_teams [] (rows_at h3 matchups) h3
              in Inr (\<lparr>win_matrix_values = matrix_at h4 wm,
                       avg_h2h_table = (if recs = [] then None else Some (groupby_mean recs))\<rparr>,
                      h4)))"

text \<open>
  Every object of the first store is still there and the same in the second; and the same
  but for the object at one address.
\<close>

definition unchanged :: "heap \<Rightarrow> heap \<Rightarrow> bool" where
  "unchanged h h' = (lim h \<le> lim h' \<and> (\<forall>a < lim h. objs h' a = objs h a))"

definition unchanged_but :: "nat \<Rightarrow> heap \<Rightarrow> heap \<Rightarrow> bool" where
  "unchanged_but w h h' = (lim h \<le> lim h' \<and> (\<forall>a < lim h. a \<noteq> w \<longrightarrow> objs h' a = objs h a))"

section \<open>Groups of rows and what they contribute\<close>

text \<open>
  The notions the statements about the two head-to-head loops are written with. The group
  of a week and a matchup id in a table is what \<^verbatim>\<open>week_matchups\<close> selects for a row
  with this week and matchup id.
\<close>

definition matchup_key :: "scoreboard_row \<Rightarrow> int \<times> int" where
  "matchup_key r = (week r, matchup_id r)"

definition matchup_group :: "scoreboard \<Rightarrow> int \<times> int \<Rightarrow> scoreboard" where
  "matchup_group matchups k = filter (\<lambda>r. matchup_key r = k) matchups"


text \<open>The test of lines 203 and 207 (and 237 and 241) on a group.\<close>

definition resolves :: "scoreboard \<Rightarrow> string list \<Rightarrow> bool" where
  "resolves wm selected_teams =
     (length wm = 2 \<and> manager_nickname (wm ! 0) \<in> set selected_teams
      \<and> manager_nickname (wm ! 1) \<in> set selected_teams)"

text \<open>The cell that line 211 increments for a group that resolves.\<close>

definition recorded :: "scoreboard \<Rightarrow> string \<times> string" where
  "recorded wm = (winner_of (wm ! 0) (wm ! 1), loser_of (wm ! 0) (wm ! 1))"


text \<open>
  How many of the given rows have a group that resolves and whose recorded cell is
  \<open>cell\<close>; and a matrix whose cells are the pairs of selected teams.
\<close>

definition win_count :: "scoreboard \<Rightarrow> string list \<Rightarrow> scoreboard \<Rightarrow> string \<times> string \<Rightarrow> nat" where
  "win_count matchups sel rows cell =
     length (filter (\<lambda>row. resolves (week_matchups matchups row) sel
                          \<and> recorded (week_matchups matchups row) = cell) rows)"

definition full_matrix :: "string list \<Rightarrow> matrix \<Rightarrow> bool" where
  "full_matrix sel m = (\<forall>r c. (m (r, c) \<noteq> None) = (r \<in> set sel \<and> c \<in> set sel))"

section \<open>The head-to-head average as the specification words it\<close>

text \<open>
  These definitions follow the words of the specification, not the source: group the rows
  by week and matchup id, keep the groups that resolve, emit two directed records for each
  of them, one per resolved pair, and average the points of the records of one team
  against one opponent. They are what the table of the source is compared with.
\<close>

definition matchup_keys :: "scoreboard \<Rightarrow> (int \<times> int) list" where
  "matchup_keys matchups = remdups (map matchup_key matchups)"

definition resolved_pairs :: "scoreboard \<Rightarrow> string list \<Rightarrow> scoreboard list" where
  "resolved_pairs matchups selected_teams =
     filter (\<lambda>g. resolves g selected_teams) (map (matchup_group matchups) (matchup_keys matchups))"



section \<open>The fixed input of the specification\<close>

text \<open>
  Weeks 1 and 2, teams A, B and C: A beats B 100 to 90 in week 1, C beats A 80 to 70 in
  week 2.
\<close>

definition row_A1 :: scoreboard_row where
  "row_A1 = \<lparr>week = 1, manager_nickname = ''A'', matchup_id = 1, team_points = 100,
             winner_team_key = ''kA'', team_key = ''kA''\<rparr>"

definition row_B1 :: scoreboard_row where
  "row_B1 = \<lparr>week = 1, manager_nickname = ''B'', matchup_id = 1, team_points = 90,
             winner_team_key = ''kA'', team_key = ''kB''\<rparr>"

definition row_C2 :: scoreboard_row where
  "row_C2 = \<lparr>week = 2, manager_nickname = ''C'', matchup_id = 1, team_points = 80,
             winner_team_key = ''kC'', team_key = ''kC''\<rparr>"

definition row_A2 :: scoreboard_row where
  "row_A2 = \<lparr>week = 2, manager_nickname = ''A'', matchup_id = 1, team_points = 70,
             winner_team_key = ''kC'', team_key = ''kA''\<rparr>"

definition example_scoreboard :: scoreboard where
  "example_scoreboard = [row_A1, row_B1, row_C2, row_A2]"

text \<open>A matchup that ends in a tie, 50 to 50.\<close>

definition row_D3 :: scoreboard_row where
  "row_D3 = \<lparr>week = 3, manager_nickname = ''D'', matchup_id = 2, team_points = 50,
             winner_team_key = ''kE'', team_key = ''kD''\<rparr>"

definition row_E3 :: scoreboard_row where
  "row_E3 = \<lparr>week = 3, manager_nickname = ''E'', matchup_id = 2, team_points = 50,
             winner_team_key = ''kE'', team_key = ''kE''\<rparr>"





text \<open>A store whose only object, at address 0, is the fixed input.\<close>

definition example_heap :: heap where
  "example_heap = \<lparr>objs = (\<lambda>a. DataFrame (map (\<lambda>r. (r, Map.empty)) example_scoreboard)), lim = 1\<rparr>"

text \<open>One row of \<^verbatim>\<open>rosters_csv/master_rosters.csv\<close> and a roster table of one row.\<close>

record roster_row =
  roster_week :: int
  manager_name :: string
  full_name :: string
  roster_position :: string
  team_abbr :: "string option"

definition example_rosters :: "roster_row list" where
  "example_rosters =
     [\<lparr>roster_week = 1, manager_name = ''A'', full_name = ''P. Layer'',
       roster_position = ''QB'', team_abbr = Some ''KC''\<rparr>]"

section \<open>Properties of the filter\<close>

text \<open>
  C3. For every table and every selection (team list, inclusive week range \<open>(lo, hi)\<close>) the
  filter returns exactly the rows whose team is selected and whose week lies in
  \<open>lo..hi\<close>: every returned row is a row of the input and satisfies the selection, every
  input row that satisfies the selection is returned, the output is a subsequence of the
  input (the order is kept) and every row occurs as often as in the input (nothing is
  deduplicated).
\<close>

theorem filtered_scoreboard_exact:
  fixes df :: scoreboard
  defines "sel_pred teams lo hi \<equiv>
    (\<lambda>r. manager_nickname r \<in> set teams \<and> lo \<le> week r \<and> week r \<le> hi)"
  shows "set (filtered_scoreboard df teams (lo, hi)) \<subseteq> set df
    \<and> (\<forall>r \<in> set (filtered_scoreboard df teams (lo, hi)). sel_pred teams lo hi r)
    \<and> (\<forall>r \<in> set df. sel_pred teams lo hi r \<longrightarrow> r \<in> set (filtered_scoreboard df teams (lo, hi)))
    \<and> (\<forall>r. \<not> sel_pred teams lo hi r \<longrightarrow> r \<notin> set (filtered_scoreboard df teams (lo, hi)))
    \<and> subseq (filtered_scoreboard df teams (lo, hi)) df
    \<and> (\<forall>r. count_list (filtered_scoreboard df teams (lo, hi)) r
            = (if sel_pred teams lo hi r then count_list df r else 0))"
proof -
  let ?P = "sel_pred teams lo hi"
  have eq: "filtered_scoreboard df teams (lo, hi) = filter ?P df"
    by (simp add: filtered_scoreboard_def isin_def between_def sel_pred_def)
  have cnt: "count_list (filter ?P df) r = (if ?P r then count_list df r else 0)" for r
    by (induction df) auto
  show ?thesis
    unfolding eq using cnt by auto
qed

lemmas example_rows = example_scoreboard_def row_A1_def row_B1_def row_C2_def row_A2_def

lemmas tie_rows = row_D3_def row_E3_def

theorem filtered_scoreboard_exact_witness:
  "row_A1 \<in> set (filtered_scoreboard example_scoreboard [''A'', ''B''] (1, 1))
   \<and> row_A1 \<in> set example_scoreboard
   \<and> manager_nickname row_A1 \<in> set [''A'', ''B''] \<and> 1 \<le> week row_A1 \<and> week row_A1 \<le> 1
   \<and> row_C2 \<notin> set (filtered_scoreboard example_scoreboard [''A'', ''B''] (1, 1))
   \<and> subseq (filtered_scoreboard example_scoreboard [''A'', ''B''] (1, 1)) example_scoreboard
   \<and> count_list (filtered_scoreboard example_scoreboard [''A'', ''B''] (1, 1)) row_A1 = 1
   \<and> filtered_scoreboard example_scoreboard [''A'', ''B''] (1, 1) = [row_A1, row_B1]"
  using filtered_scoreboard_exact [of example_scoreboard "[''A'', ''B'']" 1 1]
  by (simp add: filtered_scoreboard_def isin_def between_def example_rows)

section \<open>Properties of the cumulative win percentage\<close>



lemma length_cumsum_from [simp]: "length (cumsum_from acc xs) = length xs"
  by (induction xs arbitrary: acc) simp_all





lemma length_cumulative_wins [simp]: "length (cumulative_wins td) = length td"
  by (simp add: cumulative_wins_def cumsum_def wins_def)

lemma length_games_played [simp]: "length (games_played td) = length td"
  by (simp only: games_played_def length_map length_upt)


lemma length_win_percentage [simp]: "length (win_percentage td) = length td"
  by (simp add: win_percentage_def)







section \<open>Properties of loading\<close>


text \<open>
  C5, as the specification has it, fails: with the rosters file missing and the
  scoreboard file present, \<^verbatim>\<open>load_data\<close> returns \<^verbatim>\<open>None\<close> for the scoreboard too,
  and the pair it returns is the same as when the scoreboard file is the missing one, so
  the caller cannot tell from it which source failed.
\<close>

theorem load_data_one_missing_counterexample:
  "snd (load_data (FileNotFoundError ''rosters_csv/master_rosters.csv'') (Frame example_scoreboard))
     = Inr (None, None)
   \<and> snd (load_data (FileNotFoundError ''rosters_csv/master_rosters.csv'') (Frame example_scoreboard))
     = snd (load_data (Frame example_rosters)
              (FileNotFoundError ''weekly_scoreboard_csv/master_scoreboard.csv''))"
  by (simp add: load_data_def)

text \<open>
  C5, amended. When exactly one of the two files is missing, \<^verbatim>\<open>load_data\<close> shows one
  error element that carries the text of the exception and returns \<^verbatim>\<open>None, None\<close>,
  whichever file is missing: the table whose file is present is not returned. The script
  then shows its no-data elements in place of the dashboard and does not crash.
\<close>

theorem load_data_one_missing:
  "load_data (FileNotFoundError e) (Frame y)
     = ([st_error (''Could not load data files: '' @ e)], Inr (None, None))
   \<and> load_data (Frame x) (FileNotFoundError e)
     = ([st_error (''Could not load data files: '' @ e)], Inr (None, None))
   \<and> script (FileNotFoundError e) (Frame y)
     = NoData (st_error (''Could not load data files: '' @ e) # no_data_elements)
   \<and> script (Frame x) (FileNotFoundError e)
     = NoData (st_error (''Could not load data files: '' @ e) # no_data_elements)"
  by (simp add: load_data_def script_def)

section \<open>Properties of the head-to-head resolution\<close>

lemma winner_loser_cases:
  "(winner_of t1 t2, loser_of t1 t2) =
     (if team_points t1 > team_points t2 then (manager_nickname t1, manager_nickname t2)
      else (manager_nickname t2, manager_nickname t1))"
  by (auto simp: winner_of_def loser_of_def)

text \<open>
  C6. For a resolved pair (the group of the row has exactly the rows \<open>team1\<close>, \<open>team2\<close>, in
  this order, both selected) the loop body adds one win to the cell of the participant
  with strictly more points against the other one; when the points are equal the win goes
  to the second row, \<open>team2\<close>, against the first.
\<close>

theorem recorded_winner:
  assumes "week_matchups matchups row = [team1, team2]"
    and "manager_nickname team1 \<in> set sel" and "manager_nickname team2 \<in> set sel"
    and "m (manager_nickname team1, manager_nickname team2) = Some v12"
    and "m (manager_nickname team2, manager_nickname team1) = Some v21"
  shows "(team_points team1 > team_points team2 \<longrightarrow>
            winner_of team1 team2 = manager_nickname team1
            \<and> loser_of team1 team2 = manager_nickname team2
            \<and> win_matrix_step matchups sel m row
                = Inr (m((manager_nickname team1, manager_nickname team2) \<mapsto> v12 + 1)))
       \<and> (team_points team1 < team_points team2 \<longrightarrow>
            winner_of team1 team2 = manager_nickname team2
            \<and> loser_of team1 team2 = manager_nickname team1
            \<and> win_matrix_step matchups sel m row
                = Inr (m((manager_nickname team2, manager_nickname team1) \<mapsto> v21 + 1)))
       \<and> (team_points team1 = team_points team2 \<longrightarrow>
            winner_of team1 team2 = manager_nickname team2
            \<and> loser_of team1 team2 = manager_nickname team1
            \<and> win_matrix_step matchups sel m row
                = Inr (m((manager_nickname team2, manager_nickname team1) \<mapsto> v21 + 1)))"
proof -
  have wl: "(winner_of team1 team2, loser_of team1 team2) =
     (if team_points team1 > team_points team2
      then (manager_nickname team1, manager_nickname team2)
      else (manager_nickname team2, manager_nickname team1))"
    by (rule winner_loser_cases)
  have step: "win_matrix_step matchups sel m row
      = loc_add1 m (winner_of team1 team2) (loser_of team1 team2)"
    using assms(1-3) by (simp add: win_matrix_step_def)
  show ?thesis
    using wl assms(4,5) unfolding step by (auto simp: loc_add1_def)
qed

theorem recorded_winner_witness:
  "week_matchups example_scoreboard row_B1 = [row_A1, row_B1]
   \<and> team_points row_A1 > team_points row_B1
   \<and> winner_of row_A1 row_B1 = ''A'' \<and> loser_of row_A1 row_B1 = ''B''
   \<and> win_matrix_step example_scoreboard [''A'', ''B'', ''C''] (new_win_matrix [''A'', ''B'', ''C'']) row_B1
       = Inr ((new_win_matrix [''A'', ''B'', ''C''])((''A'', ''B'') \<mapsto> 1))
   \<and> week_matchups [row_B1, row_A1] row_B1 = [row_B1, row_A1]
   \<and> team_points row_B1 < team_points row_A1
   \<and> winner_of row_B1 row_A1 = ''A'' \<and> loser_of row_B1 row_A1 = ''B''
   \<and> week_matchups [row_D3, row_E3] row_D3 = [row_D3, row_E3]
   \<and> team_points row_D3 = team_points row_E3
   \<and> winner_of row_D3 row_E3 = ''E'' \<and> loser_of row_D3 row_E3 = ''D''
   \<and> win_matrix_step [row_D3, row_E3] [''D'', ''E''] (new_win_matrix [''D'', ''E'']) row_D3
       = Inr ((new_win_matrix [''D'', ''E''])((''E'', ''D'') \<mapsto> 1))"
proof -
  let ?sel = "[''A'', ''B'', ''C'']"
  have a1: "week_matchups example_scoreboard row_B1 = [row_A1, row_B1]"
    by (simp add: week_matchups_def example_rows)
  have a2: "manager_nickname row_A1 \<in> set ?sel" "manager_nickname row_B1 \<in> set ?sel"
    by (simp_all add: example_rows)
  have a3: "new_win_matrix ?sel (manager_nickname row_A1, manager_nickname row_B1) = Some 0"
    "new_win_matrix ?sel (manager_nickname row_B1, manager_nickname row_A1) = Some 0"
    by (simp_all add: new_win_matrix_def example_rows)
  have b1: "week_matchups [row_B1, row_A1] row_B1 = [row_B1, row_A1]"
    by (simp add: week_matchups_def example_rows)
  have c1: "week_matchups [row_D3, row_E3] row_D3 = [row_D3, row_E3]"
    by (simp add: week_matchups_def tie_rows)
  have c2: "manager_nickname row_D3 \<in> set [''D'', ''E'']" "manager_nickname row_E3 \<in> set [''D'', ''E'']"
    by (simp_all add: tie_rows)
  have c3: "new_win_matrix [''D'', ''E''] (manager_nickname row_D3, manager_nickname row_E3) = Some 0"
    "new_win_matrix [''D'', ''E''] (manager_nickname row_E3, manager_nickname row_D3) = Some 0"
    by (simp_all add: new_win_matrix_def tie_rows)
  have pts: "team_points row_A1 > team_points row_B1" "team_points row_D3 = team_points row_E3"
    and nm: "manager_nickname row_A1 = ''A''" "manager_nickname row_B1 = ''B''"
            "manager_nickname row_D3 = ''D''" "manager_nickname row_E3 = ''E''"
    by (simp_all add: example_rows tie_rows)
  from recorded_winner [OF a1 a2 a3] recorded_winner [OF b1 a2(2) a2(1) a3(2) a3(1)]
    recorded_winner [OF c1 c2 c3] a1 b1 c1 pts
  show ?thesis
    by (simp add: nm)
qed

section \<open>The loops as counts and concatenations\<close>

lemma full_new_win_matrix: "full_matrix sel (new_win_matrix sel)"
  by (simp add: full_matrix_def new_win_matrix_def)

lemma recorded_cases:
  "recorded wm = (manager_nickname (wm ! 0), manager_nickname (wm ! 1))
   \<or> recorded wm = (manager_nickname (wm ! 1), manager_nickname (wm ! 0))"
  unfolding recorded_def winner_loser_cases by simp

lemma recorded_selected:
  assumes "resolves wm sel"
  shows "fst (recorded wm) \<in> set sel \<and> snd (recorded wm) \<in> set sel"
  using assms recorded_cases [of wm] by (auto simp: resolves_def)

lemma win_matrix_step_resolves:
  "win_matrix_step matchups sel m row =
     (if resolves (week_matchups matchups row) sel
      then loc_add1 m (fst (recorded (week_matchups matchups row)))
                      (snd (recorded (week_matchups matchups row)))
      else Inr m)"
  by (simp add: win_matrix_step_def resolves_def recorded_def Let_def)

lemma win_matrix_step_full:
  assumes "full_matrix sel m"
  shows "win_matrix_step matchups sel m row =
     Inr (\<lambda>cell. map_option (\<lambda>v. v + int (win_count matchups sel [row] cell)) (m cell))
   \<and> full_matrix sel
        (\<lambda>cell. map_option (\<lambda>v. v + int (win_count matchups sel [row] cell)) (m cell))"
proof (cases "resolves (week_matchups matchups row) sel")
  case False
  then have "win_count matchups sel [row] cell = 0" for cell
    by (simp add: win_count_def)
  then have "(\<lambda>cell. map_option (\<lambda>v. v + int (win_count matchups sel [row] cell)) (m cell)) = m"
    by (simp add: option.map_ident)
  with False assms show ?thesis
    by (simp add: win_matrix_step_resolves)
next
  case True
  let ?wl = "recorded (week_matchups matchups row)"
  from recorded_selected [OF True] assms obtain v where v: "m (fst ?wl, snd ?wl) = Some v"
    unfolding full_matrix_def by (metis option.exhaust)
  have cnt: "win_count matchups sel [row] cell = (if cell = ?wl then 1 else 0)" for cell
    using True by (auto simp: win_count_def)
  have eq: "m((fst ?wl, snd ?wl) \<mapsto> v + 1)
      = (\<lambda>cell. map_option (\<lambda>v. v + int (win_count matchups sel [row] cell)) (m cell))"
  proof
    fix cell
    show "(m((fst ?wl, snd ?wl) \<mapsto> v + 1)) cell
      = map_option (\<lambda>v. v + int (win_count matchups sel [row] cell)) (m cell)"
      using v by (cases "cell = ?wl") (simp_all add: cnt option.map_ident)
  qed
  have "win_matrix_step matchups sel m row = Inr (m((fst ?wl, snd ?wl) \<mapsto> v + 1))"
    using True v by (simp add: win_matrix_step_resolves loc_add1_def)
  moreover have "full_matrix sel (m((fst ?wl, snd ?wl) \<mapsto> v + 1))"
    using assms v unfolding full_matrix_def by (metis fun_upd_apply option.distinct(1))
  ultimately show ?thesis unfolding eq by simp
qed

lemma win_count_Cons:
  "win_count matchups sel (row # rows) cell
     = win_count matchups sel [row] cell + win_count matchups sel rows cell"
  by (simp add: win_count_def)

lemma win_matrix_loop_cells:
  assumes "full_matrix sel m"
  shows "win_matrix_loop matchups sel m rows =
     Inr (\<lambda>cell. map_option (\<lambda>v. v + int (win_count matchups sel rows cell)) (m cell))"
  using assms
proof (induction rows arbitrary: m)
  case Nil
  show ?case by (simp add: win_count_def option.map_ident)
next
  case (Cons row rows)
  let ?m' = "\<lambda>cell. map_option (\<lambda>v. v + int (win_count matchups sel [row] cell)) (m cell)"
  from win_matrix_step_full [OF Cons.prems, of matchups row]
  have step: "win_matrix_step matchups sel m row = Inr ?m'" and full: "full_matrix sel ?m'"
    by simp_all
  have "win_matrix_loop matchups sel m (row # rows) = win_matrix_loop matchups sel ?m' rows"
    by (simp add: step)
  also have "\<dots> = Inr (\<lambda>cell. map_option (\<lambda>v. v + int (win_count matchups sel rows cell)) (?m' cell))"
    by (rule Cons.IH [OF full])
  also have "(\<lambda>cell. map_option (\<lambda>v. v + int (win_count matchups sel rows cell)) (?m' cell))
    = (\<lambda>cell. map_option (\<lambda>v. v + int (win_count matchups sel (row # rows) cell)) (m cell))"
    by (rule ext) (simp add: win_count_Cons [of matchups sel row rows] option.map_comp comp_def add.assoc)
  finally show ?case .
qed

lemma win_matrix_cells:
  "win_matrix fs sel =
     Inr (\<lambda>(r, c). if r \<in> set sel \<and> c \<in> set sel
                    then Some (int (win_count fs sel fs (r, c))) else None)"
proof -
  have "win_matrix fs sel = Inr (\<lambda>cell. map_option (\<lambda>v. v + int (win_count fs sel fs cell))
      (new_win_matrix sel cell))"
    by (simp add: win_matrix_def win_matrix_loop_cells [OF full_new_win_matrix])
  also have "(\<lambda>cell. map_option (\<lambda>v. v + int (win_count fs sel fs cell)) (new_win_matrix sel cell))
    = (\<lambda>(r, c). if r \<in> set sel \<and> c \<in> set sel
                    then Some (int (win_count fs sel fs (r, c))) else None)"
    by (rule ext) (simp add: new_win_matrix_def split: prod.splits)
  finally show ?thesis .
qed




lemma week_matchups_group:
  "week_matchups matchups row = matchup_group matchups (matchup_key row)"
  by (simp add: week_matchups_def matchup_group_def matchup_key_def)











section \<open>Which groups contribute\<close>



section \<open>Properties of the head-to-head averages\<close>

lemma sum_by_key_set:
  fixes H :: "'k \<Rightarrow> real"
  shows "(\<Sum>x\<leftarrow>xs. H (key x))
    = (\<Sum>k \<in> key ` set xs. real (length (filter (\<lambda>x. key x = k) xs)) * H k)"
proof (induction xs)
  case Nil
  show ?case by simp
next
  case (Cons x xs)
  let ?S = "key ` set xs"
  let ?c = "\<lambda>k. real (length (filter (\<lambda>x. key x = k) xs))"
  have fin: "finite (insert (key x) ?S)" by simp
  have "(\<Sum>k \<in> key ` set (x # xs). real (length (filter (\<lambda>y. key y = k) (x # xs))) * H k)
    = (\<Sum>k \<in> insert (key x) ?S. ?c k * H k + (if k = key x then H k else 0))"
    by (intro sum.cong) (auto simp: algebra_simps)
  also have "\<dots> = (\<Sum>k \<in> insert (key x) ?S. ?c k * H k)
      + (\<Sum>k \<in> insert (key x) ?S. if k = key x then H k else 0)"
    by (rule sum.distrib)
  also have "(\<Sum>k \<in> insert (key x) ?S. if k = key x then H k else 0) = H (key x)"
    using fin by (simp add: sum.delta del: sum.insert)
  also have "(\<Sum>k \<in> insert (key x) ?S. ?c k * H k) = (\<Sum>k \<in> ?S. ?c k * H k)"
  proof (cases "key x \<in> ?S")
    case True
    then show ?thesis by (simp add: insert_absorb)
  next
    case False
    then have "filter (\<lambda>y. key y = key x) xs = []"
      unfolding filter_empty_conv by (metis imageI)
    with False show ?thesis by simp
  qed
  finally show ?case using Cons.IH by simp
qed

lemma sum_by_key:
  fixes H :: "'k \<Rightarrow> real"
  shows "(\<Sum>x\<leftarrow>xs. H (key x))
    = (\<Sum>k\<leftarrow>remdups (map key xs). real (length (filter (\<lambda>x. key x = k) xs)) * H k)"
  by (simp add: sum_by_key_set sum_list_distinct_conv_sum_set)




lemma length_filter_sum:
  "real (length (filter P rs)) = sum_list (map (\<lambda>r. if P r then 1 else 0) rs)"
  by (induction rs) simp_all







section \<open>Properties of the win matrix\<close>

text \<open>
  What the loop of line 197 computes in general: the cell of \<open>r\<close> against \<open>c\<close> ends as
  twice the number of resolved groups in which \<open>r\<close> is recorded as the winner and \<open>c\<close> as
  the loser, because both rows of such a group run the loop body.
\<close>

lemma win_count_twice:
  "win_count fs sel fs cell
     = 2 * length (filter (\<lambda>g. recorded g = cell) (resolved_pairs fs sel))"
proof -
  let ?P = "\<lambda>k. resolves (matchup_group fs k) sel \<and> recorded (matchup_group fs k) = cell"
  let ?H = "\<lambda>k. if ?P k then 1 else 0 :: real"
  have "real (win_count fs sel fs cell) = (\<Sum>x\<leftarrow>fs. ?H (matchup_key x))"
    unfolding win_count_def week_matchups_group length_filter_sum ..
  also have "\<dots> = (\<Sum>k\<leftarrow>remdups (map matchup_key fs).
      real (length (filter (\<lambda>x. matchup_key x = k) fs)) * ?H k)"
    by (rule sum_by_key)
  also have "\<dots> = (\<Sum>k\<leftarrow>matchup_keys fs. 2 * ?H k)"
    unfolding matchup_keys_def
    by (rule arg_cong [where f = sum_list], rule map_cong)
       (auto simp: resolves_def matchup_group_def)
  also have "\<dots> = 2 * (\<Sum>k\<leftarrow>matchup_keys fs. ?H k)"
    by (rule sum_list_const_mult)
  also have "(\<Sum>k\<leftarrow>matchup_keys fs. ?H k) = real (length (filter ?P (matchup_keys fs)))"
    by (simp only: length_filter_sum)
  also have "length (filter ?P (matchup_keys fs))
      = length (filter (\<lambda>g. recorded g = cell) (resolved_pairs fs sel))"
    by (simp add: resolved_pairs_def filter_map comp_def conj_commute)
  finally have "real (win_count fs sel fs cell)
      = real (2 * length (filter (\<lambda>g. recorded g = cell) (resolved_pairs fs sel)))"
    by simp
  then show ?thesis by (simp only: of_nat_eq_iff)
qed

lemma win_matrix_counts_twice:
  assumes "r \<in> set sel" and "c \<in> set sel"
  shows "\<exists>m. win_matrix fs sel = Inr m
    \<and> m (r, c) = Some (2 * int (length (filter (\<lambda>g. recorded g = (r, c)) (resolved_pairs fs sel))))"
  using assms by (simp add: win_matrix_cells win_count_twice)

text \<open>
  C1, on the fixed input of the specification. The loop of line 197 runs once for every
  row of \<^verbatim>\<open>matchups\<close>, and each of the two rows of a resolved group finds the same
  group and adds the same win. The matrix of the fixed input therefore holds 2 in the
  cells (A, B) and (C, A), where one win each was played, and the sum of its cells is 4
  for 2 resolved matchups.
\<close>

theorem win_matrix_fixed_input:
  "matrix_values [''A'', ''B'', ''C''] (win_matrix example_scoreboard [''A'', ''B'', ''C''])
     = [[Some 0, Some 2, Some 0],
        [Some 0, Some 0, Some 0],
        [Some 2, Some 0, Some 0]]"
  by (simp add: matrix_values_def win_matrix_def win_matrix_step_def week_matchups_def
      example_rows new_win_matrix_def loc_add1_def winner_of_def loser_of_def)

text \<open>
  C7. When the two rows of every group that resolves carry different teams, the win matrix
  is built without an error, every diagonal cell is 0, every cell of two selected teams
  holds an integer that is not negative, and there is no other cell.
\<close>

theorem win_matrix_diagonal:
  assumes "\<forall>row \<in> set fs.
      length (week_matchups fs row) = 2
      \<and> manager_nickname (week_matchups fs row ! 0) \<in> set sel
      \<and> manager_nickname (week_matchups fs row ! 1) \<in> set sel
      \<longrightarrow> manager_nickname (week_matchups fs row ! 0) \<noteq> manager_nickname (week_matchups fs row ! 1)"
  shows "\<exists>m. win_matrix fs sel = Inr m
    \<and> (\<forall>t \<in> set sel. m (t, t) = Some 0)
    \<and> (\<forall>r \<in> set sel. \<forall>c \<in> set sel. \<exists>v. m (r, c) = Some v \<and> 0 \<le> v)
    \<and> (\<forall>r c. r \<notin> set sel \<or> c \<notin> set sel \<longrightarrow> m (r, c) = None)"
proof -
  have diag: "win_count fs sel fs (t, t) = 0" for t
  proof -
    have "\<not> (resolves (week_matchups fs row) sel \<and> recorded (week_matchups fs row) = (t, t))"
      if "row \<in> set fs" for row
      using assms that recorded_cases [of "week_matchups fs row"]
      by (auto simp: resolves_def)
    then show ?thesis by (simp add: win_count_def)
  qed
  show ?thesis
    unfolding win_matrix_cells by (auto simp: diag)
qed

theorem win_matrix_diagonal_witness:
  "manager_nickname (week_matchups example_scoreboard row_A1 ! 0)
     \<noteq> manager_nickname (week_matchups example_scoreboard row_A1 ! 1)
   \<and> manager_nickname (week_matchups example_scoreboard row_C2 ! 0)
     \<noteq> manager_nickname (week_matchups example_scoreboard row_C2 ! 1)
   \<and> (\<exists>m. win_matrix example_scoreboard [''A'', ''B'', ''C''] = Inr m
        \<and> m (''A'', ''A'') = Some 0 \<and> m (''B'', ''B'') = Some 0 \<and> m (''C'', ''C'') = Some 0
        \<and> (\<exists>v. m (''A'', ''B'') = Some v \<and> 0 \<le> v)
        \<and> m (''A'', ''D'') = None)"
proof -
  let ?sel = "[''A'', ''B'', ''C'']"
  have wm: "week_matchups example_scoreboard row_A1 = [row_A1, row_B1]"
    "week_matchups example_scoreboard row_B1 = [row_A1, row_B1]"
    "week_matchups example_scoreboard row_C2 = [row_C2, row_A2]"
    "week_matchups example_scoreboard row_A2 = [row_C2, row_A2]"
    by (simp_all add: week_matchups_def example_rows)
  have names: "manager_nickname row_A1 = ''A''" "manager_nickname row_B1 = ''B''"
    "manager_nickname row_C2 = ''C''" "manager_nickname row_A2 = ''A''"
    by (simp_all add: example_rows)
  have hyp: "\<forall>row \<in> set example_scoreboard.
      length (week_matchups example_scoreboard row) = 2
      \<and> manager_nickname (week_matchups example_scoreboard row ! 0) \<in> set ?sel
      \<and> manager_nickname (week_matchups example_scoreboard row ! 1) \<in> set ?sel
      \<longrightarrow> manager_nickname (week_matchups example_scoreboard row ! 0)
          \<noteq> manager_nickname (week_matchups example_scoreboard row ! 1)"
    unfolding example_scoreboard_def [THEN arg_cong [where f = set]]
    by (simp add: wm names)
  from win_matrix_diagonal [OF hyp] obtain m where
    m: "win_matrix example_scoreboard ?sel = Inr m"
      "\<forall>t \<in> set ?sel. m (t, t) = Some 0"
      "\<forall>r \<in> set ?sel. \<forall>c \<in> set ?sel. \<exists>v. m (r, c) = Some v \<and> 0 \<le> v"
      "\<forall>r c. r \<notin> set ?sel \<or> c \<notin> set ?sel \<longrightarrow> m (r, c) = None"
    by blast
  have "m (''A'', ''A'') = Some 0" "m (''B'', ''B'') = Some 0" "m (''C'', ''C'') = Some 0"
    using m(2) by simp_all
  moreover have "\<exists>v. m (''A'', ''B'') = Some v \<and> 0 \<le> v" using m(3) by simp
  moreover have "m (''A'', ''D'') = None" using m(4) by simp
  ultimately show ?thesis using m(1) by (simp add: wm names)
qed

section \<open>Recomputation and the source tables\<close>

lemma unchanged_refl: "unchanged h h"
  by (simp add: unchanged_def)

lemma unchanged_trans: "unchanged h1 h2 \<Longrightarrow> unchanged h2 h3 \<Longrightarrow> unchanged h1 h3"
  by (auto simp: unchanged_def)

lemma unchanged_rows: "unchanged h h' \<Longrightarrow> a < lim h \<Longrightarrow> rows_at h' a = rows_at h a"
  by (simp add: unchanged_def rows_at_def frame_at_def)

lemma alloc_props:
  assumes "alloc v h = (a, h')"
  shows "a = lim h" and "lim h' = lim h + 1" and "objs h' a = v" and "unchanged h h'"
  using assms by (auto simp: alloc_def unchanged_def)

lemma boolean_index_props:
  assumes "boolean_index keep src h = (a, h')"
  shows "a = lim h" and "lim h' = lim h + 1" and "unchanged h h'"
    and "rows_at h' a = filter keep (rows_at h src)"
proof -
  from assms have al: "alloc (DataFrame (filter (\<lambda>x. keep (fst x)) (frame_at h src))) h = (a, h')"
    by (simp add: boolean_index_def)
  from alloc_props [OF al] show "a = lim h" "lim h' = lim h + 1" "unchanged h h'"
    by simp_all
  from alloc_props(3) [OF al] show "rows_at h' a = filter keep (rows_at h src)"
    by (simp add: rows_at_def frame_at_def filter_map comp_def)
qed

lemma map_insort_key:
  "map g (insort_key (\<lambda>y. f (g y)) x xs) = insort_key f (g x) (map g xs)"
  by (induction xs) simp_all

lemma map_sort_key: "map g (sort_key (\<lambda>y. f (g y)) xs) = sort_key f (map g xs)"
  by (induction xs) (simp_all add: map_insort_key)

lemma sort_values_week_props:
  assumes "sort_values_week src h = (a, h')"
  shows "a = lim h" and "lim h' = lim h + 1" and "unchanged h h'"
    and "rows_at h' a = sort_key week (rows_at h src)"
proof -
  from assms have al: "alloc (DataFrame (sort_key (\<lambda>x. week (fst x)) (frame_at h src))) h = (a, h')"
    by (simp add: sort_values_week_def)
  from alloc_props [OF al] show "a = lim h" "lim h' = lim h + 1" "unchanged h h'"
    by simp_all
  have "map fst (sort_key (\<lambda>x. week (fst x)) (frame_at h src)) = sort_key week (map fst (frame_at h src))"
    by (rule map_sort_key)
  with alloc_props(3) [OF al] show "rows_at h' a = sort_key week (rows_at h src)"
    by (simp add: rows_at_def frame_at_def comp_def)
qed

lemma setitem_lim [simp]: "lim (setitem a name vals h) = lim h"
  by (simp add: setitem_def)

lemma setitem_other: "b \<noteq> a \<Longrightarrow> objs (setitem a name vals h) b = objs h b"
  by (simp add: setitem_def)

lemma setitem_rows:
  assumes "length vals = length (rows_at h a)"
  shows "rows_at (setitem a name vals h) a = rows_at h a"
proof -
  have "map fst (map2 (\<lambda>x v. (fst x, (snd x)(name \<mapsto> v))) f vals) = map fst f"
    if "length vals = length f" for f :: frame
    using that by (induction f vals rule: list_induct2') simp_all
  with assms show ?thesis
    by (simp add: setitem_def rows_at_def frame_at_def)
qed

lemma setitem_fresh:
  assumes "unchanged h0 h" and "lim h0 \<le> a"
  shows "unchanged h0 (setitem a name vals h)"
  using assms by (auto simp: unchanged_def setitem_other)

lemma length_wins [simp]: "length (wins td) = length td"
  by (simp add: wins_def)

lemma run_team_props:
  assumes "fs < lim h"
  shows "fst (run_team fs t h) = win_frame (team_data (rows_at h fs) t)"
    and "unchanged h (snd (run_team fs t h))"
proof -
  obtain masked h1 where b: "boolean_index (\<lambda>r. manager_nickname r = t) fs h = (masked, h1)"
    by (cases "boolean_index (\<lambda>r. manager_nickname r = t) fs h")
  obtain td h2 where s: "sort_values_week masked h1 = (td, h2)"
    by (cases "sort_values_week masked h1")
  define h3 where "h3 = setitem td ''wins'' (map IntCell (wins (rows_at h2 td))) h2"
  define h4 where "h4 = setitem td ''cumulative_wins'' (map IntCell (cumulative_wins (rows_at h3 td))) h3"
  define h5 where "h5 = setitem td ''games_played'' (map IntCell (games_played (rows_at h4 td))) h4"
  define h6 where "h6 = setitem td ''win_percentage'' (map FloatCell (win_percentage (rows_at h5 td))) h5"
  have run: "run_team fs t h = (win_frame (rows_at h6 td), h6)"
    by (simp add: run_team_def b s h3_def h4_def h5_def h6_def Let_def)
  note bp = boolean_index_props [OF b] and sp = sort_values_week_props [OF s]
  have rows2: "rows_at h2 td = team_data (rows_at h fs) t"
    by (simp add: sp(4) bp(4) team_data_def)
  have rows3: "rows_at h3 td = rows_at h2 td" by (simp add: h3_def setitem_rows)
  have rows4: "rows_at h4 td = rows_at h2 td" by (simp add: h4_def setitem_rows rows3)
  have rows5: "rows_at h5 td = rows_at h2 td" by (simp add: h5_def setitem_rows rows4)
  have rows6: "rows_at h6 td = rows_at h2 td" by (simp add: h6_def setitem_rows rows5)
  have fresh: "lim h \<le> td" using bp(1,2) sp(1) by simp
  have u2: "unchanged h h2" using bp(3) sp(3) by (rule unchanged_trans)
  have u6: "unchanged h h6"
    unfolding h6_def h5_def h4_def h3_def
    by (intro setitem_fresh u2 fresh)
  show "fst (run_team fs t h) = win_frame (team_data (rows_at h fs) t)"
    by (simp add: run rows6 rows2)
  show "unchanged h (snd (run_team fs t h))"
    by (simp add: run u6)
qed

lemma run_win_data_loop_props:
  assumes "fs < lim h"
  shows "fst (run_win_data_loop fs acc ts h) = win_data_loop (rows_at h fs) acc ts
    \<and> unchanged h (snd (run_win_data_loop fs acc ts h))"
  using assms
proof (induction ts arbitrary: acc h)
  case Nil
  show ?case by (simp add: unchanged_refl)
next
  case (Cons t ts)
  obtain fr h' where r: "run_team fs t h = (fr, h')" by (cases "run_team fs t h")
  from run_team_props [OF Cons.prems, of t] r
  have fr: "fr = win_frame (team_data (rows_at h fs) t)" and u: "unchanged h h'"
    by simp_all
  from u Cons.prems have lim': "fs < lim h'" and rows': "rows_at h' fs = rows_at h fs"
    by (auto simp: unchanged_def rows_at_def frame_at_def)
  from Cons.IH [OF lim', of "acc @ [fr]"] u show ?case
    by (auto simp: r rows' fr intro: unchanged_trans)
qed

lemma run_win_data_props:
  assumes "fs < lim h"
  shows "fst (run_win_data fs sel h) = win_data (rows_at h fs) sel"
    and "unchanged h (snd (run_win_data fs sel h))"
  using run_win_data_loop_props [OF assms, of "[]" sel]
  by (simp_all add: run_win_data_def win_data_def)

lemma unchanged_but_trans:
  "unchanged_but w h1 h2 \<Longrightarrow> unchanged_but w h2 h3 \<Longrightarrow> unchanged_but w h1 h3"
  by (auto simp: unchanged_but_def)

lemma unchanged_imp_but: "unchanged h h' \<Longrightarrow> unchanged_but w h h'"
  by (simp add: unchanged_def unchanged_but_def)

lemma run_matrix_step_props:
  assumes "mt < lim h" and "wm < lim h" and "mt \<noteq> wm" and "objs h wm = MatrixFrame m"
  shows "case win_matrix_step (rows_at h mt) sel m row of
           Inl e \<Rightarrow> run_matrix_step mt wm sel row h = Inl e
         | Inr m' \<Rightarrow> \<exists>h'. run_matrix_step mt wm sel row h = Inr h'
               \<and> objs h' wm = MatrixFrame m' \<and> unchanged_but wm h h'"
proof -
  let ?keep = "\<lambda>r. week r = week row \<and> matchup_id r = matchup_id row"
  obtain g h1 where b: "boolean_index ?keep mt h = (g, h1)"
    by (cases "boolean_index ?keep mt h")
  note bp = boolean_index_props [OF b]
  have rows: "rows_at h1 g = week_matchups (rows_at h mt) row"
    by (simp add: bp(4) week_matchups_def)
  have m1: "matrix_at h1 wm = m" and o1: "objs h1 wm = MatrixFrame m"
    using bp(3) assms(2,4) by (simp_all add: unchanged_def matrix_at_def)
  have ub: "unchanged_but wm h h1" using bp(3) by (rule unchanged_imp_but)
  have upd: "unchanged_but wm h (h1\<lparr>objs := (objs h1)(wm := MatrixFrame m')\<rparr>)" for m'
    using bp(3) by (auto simp: unchanged_def unchanged_but_def)
  show ?thesis
    using o1 ub upd
    by (auto simp: run_matrix_step_def win_matrix_step_def b rows m1 Let_def split: sum.splits)
qed

lemma run_matrix_loop_props:
  assumes "mt < lim h" and "wm < lim h" and "mt \<noteq> wm" and "objs h wm = MatrixFrame m"
    and "rows_at h mt = matchups"
  shows "case win_matrix_loop matchups sel m rows of
           Inl e \<Rightarrow> run_matrix_loop mt wm sel rows h = Inl e
         | Inr m' \<Rightarrow> \<exists>h'. run_matrix_loop mt wm sel rows h = Inr h'
               \<and> objs h' wm = MatrixFrame m' \<and> unchanged_but wm h h'"
  using assms
proof (induction rows arbitrary: h m)
  case Nil
  then show ?case by (simp add: unchanged_but_def)
next
  case (Cons row rows)
  show ?case
  proof (cases "win_matrix_step matchups sel m row")
    case (Inl e)
    with run_matrix_step_props [OF Cons.prems(1-4), of sel row] Cons.prems(5)
    show ?thesis by simp
  next
    case (Inr m1)
    with run_matrix_step_props [OF Cons.prems(1-4), of sel row] Cons.prems(5)
    obtain h1 where h1: "run_matrix_step mt wm sel row h = Inr h1"
      "objs h1 wm = MatrixFrame m1" "unchanged_but wm h h1"
      by auto
    from h1(3) Cons.prems(1-3,5) have p: "mt < lim h1" "wm < lim h1" "rows_at h1 mt = matchups"
      by (auto simp: unchanged_but_def rows_at_def frame_at_def)
    from Cons.IH [OF p(1,2) Cons.prems(3) h1(2) p(3)] h1(3) show ?thesis
      by (auto simp: Inr h1(1) split: sum.splits intro: unchanged_but_trans)
  qed
qed

lemma run_h2h_step_props:
  assumes "mt < lim h"
  shows "fst (run_h2h_step mt sel row h) = h2h_step (rows_at h mt) sel row"
    and "unchanged h (snd (run_h2h_step mt sel row h))"
proof -
  let ?keep = "\<lambda>r. week r = week row \<and> matchup_id r = matchup_id row"
  obtain g h1 where b: "boolean_index ?keep mt h = (g, h1)"
    by (cases "boolean_index ?keep mt h")
  note bp = boolean_index_props [OF b]
  have rows: "rows_at h1 g = week_matchups (rows_at h mt) row"
    by (simp add: bp(4) week_matchups_def)
  show "fst (run_h2h_step mt sel row h) = h2h_step (rows_at h mt) sel row"
    by (simp add: run_h2h_step_def h2h_step_def b rows Let_def)
  show "unchanged h (snd (run_h2h_step mt sel row h))"
    using bp(3) by (simp add: run_h2h_step_def b Let_def)
qed

lemma run_h2h_loop_props:
  assumes "mt < lim h" and "rows_at h mt = matchups"
  shows "fst (run_h2h_loop mt sel acc rows h) = h2h_loop matchups sel acc rows
    \<and> unchanged h (snd (run_h2h_loop mt sel acc rows h))"
  using assms
proof (induction rows arbitrary: acc h)
  case Nil
  show ?case by (simp add: unchanged_refl)
next
  case (Cons row rows)
  obtain new h' where r: "run_h2h_step mt sel row h = (new, h')"
    by (cases "run_h2h_step mt sel row h")
  from run_h2h_step_props [OF Cons.prems(1), of sel row] r Cons.prems(2)
  have new: "new = h2h_step matchups sel row" and u: "unchanged h h'"
    by simp_all
  from u Cons.prems have p: "mt < lim h'" "rows_at h' mt = matchups"
    by (auto simp: unchanged_def rows_at_def frame_at_def)
  from Cons.IH [OF p, of "acc @ new"] u show ?case
    by (auto simp: r new intro: unchanged_trans)
qed

lemma run_head_to_head_props:
  assumes "fs < lim h"
  shows "\<exists>out h'. run_head_to_head fs sel h = Inr (out, h')
    \<and> win_matrix (rows_at h fs) sel = Inr (win_matrix_values out)
    \<and> avg_h2h_table out = avg_h2h (rows_at h fs) sel
    \<and> unchanged h h'"
proof -
  let ?fs = "rows_at h fs"
  obtain mt h1 where c: "copy fs h = (mt, h1)" by (cases "copy fs h")
  then have al1: "alloc (objs h fs) h = (mt, h1)" by (simp add: copy_def)
  obtain wm h2 where al2: "alloc (MatrixFrame (new_win_matrix sel)) h1 = (wm, h2)"
    by (cases "alloc (MatrixFrame (new_win_matrix sel)) h1")
  note a1 = alloc_props [OF al1] and a2 = alloc_props [OF al2]
  have mt: "mt < lim h2" "wm < lim h2" "mt \<noteq> wm" using a1(1,2) a2(1,2) by simp_all
  have rows1: "rows_at h1 mt = ?fs" using a1(3) by (simp add: rows_at_def frame_at_def)
  have rows2: "rows_at h2 mt = ?fs"
    using a2(4) a1(1,2) rows1 by (simp add: unchanged_rows)
  have u2: "unchanged h h2" using a1(4) a2(4) by (rule unchanged_trans)
  obtain m where m: "win_matrix ?fs sel = Inr m"
    by (simp add: win_matrix_cells)
  then have pure: "win_matrix_loop ?fs sel (new_win_matrix sel) ?fs = Inr m"
    by (simp add: win_matrix_def Let_def)
  from run_matrix_loop_props [OF mt a2(3) rows2, of sel ?fs] pure
  obtain h3 where h3: "run_matrix_loop mt wm sel ?fs h2 = Inr h3"
    "objs h3 wm = MatrixFrame m" "unchanged_but wm h2 h3"
    by auto
  have fresh: "lim h \<le> wm" using a1(1,2) a2(1) by simp
  have u3: "unchanged h h3"
    using u2 h3(3) fresh by (auto simp: unchanged_def unchanged_but_def)
  from h3(3) mt rows2 have p3: "mt < lim h3" "wm < lim h3" "rows_at h3 mt = ?fs"
    by (auto simp: unchanged_but_def rows_at_def frame_at_def)
  obtain recs h4 where l: "run_h2h_loop mt sel [] ?fs h3 = (recs, h4)"
    by (cases "run_h2h_loop mt sel [] ?fs h3")
  from run_h2h_loop_props [OF p3(1,3), of sel "[]" ?fs] l
  have recs: "recs = h2h_points ?fs sel" and u4: "unchanged h3 h4"
    by (simp_all add: h2h_points_def)
  have m4: "matrix_at h4 wm = m"
    using u4 p3(2) h3(2) by (simp add: unchanged_def matrix_at_def)
  have run: "run_head_to_head fs sel h
      = Inr (\<lparr>win_matrix_values = m,
               avg_h2h_table = (if recs = [] then None else Some (groupby_mean recs))\<rparr>, h4)"
    by (simp add: run_head_to_head_def c al2 rows2 h3(1) p3(3) l m4)
  have "unchanged h h4" using u3 u4 by (rule unchanged_trans)
  then show ?thesis
    by (simp add: run m recs avg_h2h_def Let_def)
qed

lemma run_filter_props:
  assumes "run_filter df sel wr h = (fs, h')"
  shows "rows_at h' fs = filtered_scoreboard (rows_at h df) sel wr" and "unchanged h h'"
    and "fs = lim h"
  using boolean_index_props [OF assms [unfolded run_filter_def]]
  by (simp_all add: filtered_scoreboard_def)

lemma unchanged_source:
  assumes "unchanged h h'" and "src < lim h"
  shows "src < lim h' \<and> objs h' src = objs h src \<and> rows_at h' src = rows_at h src"
  using assms by (auto simp: unchanged_def rows_at_def frame_at_def)

text \<open>
  C9. Let \<open>src\<close> be the address of a table in the store. Each computation (the filter, the
  cumulative win percentages, the win matrix together with the head-to-head averages),
  run on \<open>src\<close> and then run again in the store the first run leaves, gives the same
  output both times, the value of the corresponding function of the rows of the table;
  and each run leaves every object that was in the store before it as it was, the table
  at \<open>src\<close> among them.
\<close>

theorem derived_tables_idempotent:
  assumes "src < lim h"
  shows "(\<exists>fs1 h1 fs2 h2.
            run_filter src sel wr h = (fs1, h1) \<and> run_filter src sel wr h1 = (fs2, h2)
            \<and> rows_at h1 fs1 = filtered_scoreboard (rows_at h src) sel wr
            \<and> rows_at h2 fs2 = rows_at h1 fs1
            \<and> unchanged h h1 \<and> unchanged h1 h2
            \<and> objs h1 src = objs h src \<and> objs h2 src = objs h src)
    \<and> (fst (run_win_data src sel h) = win_data (rows_at h src) sel
        \<and> fst (run_win_data src sel (snd (run_win_data src sel h))) = fst (run_win_data src sel h)
        \<and> unchanged h (snd (run_win_data src sel h))
        \<and> unchanged (snd (run_win_data src sel h))
             (snd (run_win_data src sel (snd (run_win_data src sel h))))
        \<and> objs (snd (run_win_data src sel h)) src = objs h src
        \<and> objs (snd (run_win_data src sel (snd (run_win_data src sel h)))) src = objs h src)
    \<and> (\<exists>out h1 h2.
            run_head_to_head src sel h = Inr (out, h1) \<and> run_head_to_head src sel h1 = Inr (out, h2)
            \<and> win_matrix (rows_at h src) sel = Inr (win_matrix_values out)
            \<and> avg_h2h_table out = avg_h2h (rows_at h src) sel
            \<and> unchanged h h1 \<and> unchanged h1 h2
            \<and> objs h1 src = objs h src \<and> objs h2 src = objs h src)"
proof (intro conjI)
  note keep = unchanged_source [OF _ assms]
  show "\<exists>fs1 h1 fs2 h2.
            run_filter src sel wr h = (fs1, h1) \<and> run_filter src sel wr h1 = (fs2, h2)
            \<and> rows_at h1 fs1 = filtered_scoreboard (rows_at h src) sel wr
            \<and> rows_at h2 fs2 = rows_at h1 fs1
            \<and> unchanged h h1 \<and> unchanged h1 h2
            \<and> objs h1 src = objs h src \<and> objs h2 src = objs h src"
  proof -
    obtain fs1 h1 where r1: "run_filter src sel wr h = (fs1, h1)"
      by (cases "run_filter src sel wr h")
    obtain fs2 h2 where r2: "run_filter src sel wr h1 = (fs2, h2)"
      by (cases "run_filter src sel wr h1")
    note p1 = run_filter_props [OF r1] and p2 = run_filter_props [OF r2]
    from keep [OF p1(2)] have k1: "objs h1 src = objs h src" "rows_at h1 src = rows_at h src"
      by simp_all
    have "unchanged h h2" using p1(2) p2(2) by (rule unchanged_trans)
    from keep [OF this] have k2: "objs h2 src = objs h src" by simp
    show ?thesis
      using r1 r2 p1(1,2) p2(1,2) k1 k2 by simp
  qed
next
  note keep = unchanged_source [OF _ assms]
  let ?h1 = "snd (run_win_data src sel h)"
  let ?h2 = "snd (run_win_data src sel ?h1)"
  note p1 = run_win_data_props [OF assms, of sel]
  from keep [OF p1(2)] have k1: "src < lim ?h1" "objs ?h1 src = objs h src"
    "rows_at ?h1 src = rows_at h src" by simp_all
  note p2 = run_win_data_props [OF k1(1), of sel]
  have "unchanged h ?h2" using p1(2) p2(2) by (rule unchanged_trans)
  from keep [OF this] have k2: "objs ?h2 src = objs h src" by simp
  show "fst (run_win_data src sel h) = win_data (rows_at h src) sel" by (rule p1(1))
  show "fst (run_win_data src sel ?h1) = fst (run_win_data src sel h)"
    by (simp add: p1(1) p2(1) k1(3))
  show "unchanged h ?h1" by (rule p1(2))
  show "unchanged ?h1 ?h2" by (rule p2(2))
  show "objs ?h1 src = objs h src" by (rule k1(2))
  show "objs ?h2 src = objs h src" by (rule k2)
next
  note keep = unchanged_source [OF _ assms]
  from run_head_to_head_props [OF assms, of sel] obtain out h1 where
    r1: "run_head_to_head src sel h = Inr (out, h1)"
      "win_matrix (rows_at h src) sel = Inr (win_matrix_values out)"
      "avg_h2h_table out = avg_h2h (rows_at h src) sel" "unchanged h h1"
    by blast
  from keep [OF r1(4)] have k1: "src < lim h1" "objs h1 src = objs h src"
    "rows_at h1 src = rows_at h src" by simp_all
  from run_head_to_head_props [OF k1(1), of sel] obtain out' h2 where
    r2: "run_head_to_head src sel h1 = Inr (out', h2)"
      "win_matrix (rows_at h1 src) sel = Inr (win_matrix_values out')"
      "avg_h2h_table out' = avg_h2h (rows_at h1 src) sel" "unchanged h1 h2"
    by blast
  have "win_matrix_values out' = win_matrix_values out" "avg_h2h_table out' = avg_h2h_table out"
    using r1(2,3) r2(2,3) by (simp_all add: k1(3))
  then have same: "out' = out" by simp
  have "unchanged h h2" using r1(4) r2(4) by (rule unchanged_trans)
  from keep [OF this] have k2: "objs h2 src = objs h src" by simp
  show "\<exists>out h1 h2.
            run_head_to_head src sel h = Inr (out, h1) \<and> run_head_to_head src sel h1 = Inr (out, h2)
            \<and> win_matrix (rows_at h src) sel = Inr (win_matrix_values out)
            \<and> avg_h2h_table out = avg_h2h (rows_at h src) sel
            \<and> unchanged h h1 \<and> unchanged h1 h2
            \<and> objs h1 src = objs h src \<and> objs h2 src = objs h src"
    using r1 r2 k1(2) k2 unfolding same by blast
qed

theorem derived_tables_idempotent_witness:
  "(0::nat) < lim example_heap
   \<and> rows_at example_heap 0 = example_scoreboard
   \<and> fst (run_win_data 0 [''A''] example_heap) = [[(1, ''A'', 100), (2, ''A'', 50)]]
   \<and> fst (run_win_data 0 [''A''] (snd (run_win_data 0 [''A''] example_heap)))
       = [[(1, ''A'', 100), (2, ''A'', 50)]]
   \<and> objs (snd (run_win_data 0 [''A''] example_heap)) 0 = objs example_heap 0
   \<and> (\<exists>out h1 h2. run_head_to_head 0 [''A'', ''B'', ''C''] example_heap = Inr (out, h1)
         \<and> run_head_to_head 0 [''A'', ''B'', ''C''] h1 = Inr (out, h2)
         \<and> objs h1 0 = objs example_heap 0 \<and> objs h2 0 = objs example_heap 0)
   \<and> (\<exists>fs1 h1 fs2 h2. run_filter 0 [''A'', ''B''] (1, 1) example_heap = (fs1, h1)
         \<and> run_filter 0 [''A'', ''B''] (1, 1) h1 = (fs2, h2)
         \<and> rows_at h1 fs1 = [row_A1, row_B1] \<and> rows_at h2 fs2 = [row_A1, row_B1]
         \<and> objs h2 0 = objs example_heap 0)"
proof -
  have l: "(0::nat) < lim example_heap" by (simp add: example_heap_def)
  have rows: "rows_at example_heap 0 = example_scoreboard"
    by (simp add: example_heap_def rows_at_def frame_at_def comp_def)
  have wd: "win_data example_scoreboard [''A''] = [[(1, ''A'', 100), (2, ''A'', 50)]]"
    by (simp add: win_data_def team_data_def win_frame_def win_percentage_def cumulative_wins_def
        cumsum_def wins_def games_played_def example_rows)
  have fl: "filtered_scoreboard example_scoreboard [''A'', ''B''] (1, 1) = [row_A1, row_B1]"
    by (simp add: filtered_scoreboard_def isin_def between_def example_rows)
  note t1 = derived_tables_idempotent [OF l, of "[''A'']" "(1, 1)"]
  note t2 = derived_tables_idempotent [OF l, of "[''A'', ''B'', ''C'']" "(1, 1)"]
  note t3 = derived_tables_idempotent [OF l, of "[''A'', ''B'']" "(1, 1)"]
  have a: "fst (run_win_data 0 [''A''] example_heap) = [[(1, ''A'', 100), (2, ''A'', 50)]]"
    "fst (run_win_data 0 [''A''] (snd (run_win_data 0 [''A''] example_heap)))
       = [[(1, ''A'', 100), (2, ''A'', 50)]]"
    "objs (snd (run_win_data 0 [''A''] example_heap)) 0 = objs example_heap 0"
    using t1 by (simp_all add: rows wd)
  have b: "\<exists>out h1 h2. run_head_to_head 0 [''A'', ''B'', ''C''] example_heap = Inr (out, h1)
         \<and> run_head_to_head 0 [''A'', ''B'', ''C''] h1 = Inr (out, h2)
         \<and> objs h1 0 = objs example_heap 0 \<and> objs h2 0 = objs example_heap 0"
    using t2 by blast
  have c: "\<exists>fs1 h1 fs2 h2. run_filter 0 [''A'', ''B''] (1, 1) example_heap = (fs1, h1)
         \<and> run_filter 0 [''A'', ''B''] (1, 1) h1 = (fs2, h2)
         \<and> rows_at h1 fs1 = [row_A1, row_B1] \<and> rows_at h2 fs2 = [row_A1, row_B1]
         \<and> objs h2 0 = objs example_heap 0"
    using t3 unfolding rows fl by metis
  show ?thesis using l rows a b c by simp
qed

end
